theory Spec2Isabelle
  imports Main "HOL-Library.Multiset"
begin

section \<open>Values exchanged with the catalog client\<close>

text \<open>
  The Spotify client hands back parsed JSON: Python dicts, lists, strings, numbers,
  booleans and None. A dict is kept as an association list whose first binding of a key
  is the effective one. Every operation the program applies to these values (len,
  subscripting, slicing, iteration) treats all numbers alike, so one constructor of
  integers stands for them.
\<close>

datatype json =
    JNull
  | JBool bool
  | JNum int
  | JStr string
  | JList "json list"
  | JDict "(string \<times> json) list"

text \<open>
  The exceptions the program can end with. The four ValueErrors are told apart by where
  they are raised:
  \<^item> \<open>NoArtistsFound name\<close>: \<^verbatim>\<open>ValueError(f"No artists found with this name: {artist_name}")\<close>
    in \<^verbatim>\<open>retrieve_id\<close>;
  \<^item> \<open>TooManyPerArtist\<close>: \<^verbatim>\<open>ValueError("Can only provide up to 10 tracks per artist")\<close>
    in \<^verbatim>\<open>retrieve_tracks\<close>;
  \<^item> \<open>OverCapacity max_tracks\<close>: \<^verbatim>\<open>ValueError(f"Only 10 tracks per artist, max tracks for this many artists is: {max_tracks}")\<close>
    in \<^verbatim>\<open>_run\<close>;
  \<^item> \<open>SampleValueError\<close>: the ValueError that \<^verbatim>\<open>random.sample\<close> itself raises
    ("Sample larger than population or is negative").
  \<open>KeyError\<close>, \<open>IndexError\<close> and \<open>TypeError\<close> come from subscripting, and
  \<open>ClientError\<close> is an exception raised inside a call of the catalog client.
\<close>

datatype error =
    NoArtistsFound string
  | TooManyPerArtist
  | OverCapacity int
  | SampleValueError
  | KeyError json
  | IndexError
  | TypeError
  | ClientError string

text \<open>
  The process-wide client \<^verbatim>\<open>sp\<close>: its two endpoints, each either raising (Inl, with the
  client's message) or returning the parsed response. The catalog is read-only, so an
  endpoint is a function of its argument.
\<close>

record catalog =
  search :: "string \<Rightarrow> string + json"
  artist_top_tracks :: "json \<Rightarrow> string + json"

section \<open>The Python operations on values\<close>

text \<open>\<^verbatim>\<open>len(v)\<close>: the number of keys of a dict, the length of a list or string.\<close>

definition py_len :: "json \<Rightarrow> error + nat" where
  "py_len v =
     (case v of
        JDict kvs \<Rightarrow> Inr (length (remdups (map fst kvs)))
      | JList xs \<Rightarrow> Inr (length xs)
      | JStr s \<Rightarrow> Inr (length s)
      | _ \<Rightarrow> Inl TypeError)"

text \<open>\<^verbatim>\<open>v[k]\<close> for a string key: only a dict accepts it.\<close>

definition getitem_key :: "json \<Rightarrow> string \<Rightarrow> error + json" where
  "getitem_key v k =
     (case v of
        JDict kvs \<Rightarrow> (case map_of kvs k of None \<Rightarrow> Inl (KeyError (JStr k)) | Some x \<Rightarrow> Inr x)
      | _ \<Rightarrow> Inl TypeError)"

text \<open>\<^verbatim>\<open>xs[i]\<close> on a sequence: a negative index counts from the end.\<close>

definition seq_index :: "'a list \<Rightarrow> int \<Rightarrow> error + 'a" where
  "seq_index xs i =
     (if 0 \<le> i \<and> i < int (length xs) then Inr (xs ! nat i)
      else if i < 0 \<and> - int (length xs) \<le> i then Inr (xs ! nat (int (length xs) + i))
      else Inl IndexError)"

text \<open>
  \<^verbatim>\<open>v[i]\<close> for an integer: an element of a list, a one-character string of a string, a
  missing key of a dict (the keys of a parsed JSON object are strings).
\<close>

definition getitem_index :: "json \<Rightarrow> int \<Rightarrow> error + json" where
  "getitem_index v i =
     (case v of
        JList xs \<Rightarrow> seq_index xs i
      | JStr s \<Rightarrow> (case seq_index s i of Inl e \<Rightarrow> Inl e | Inr c \<Rightarrow> Inr (JStr [c]))
      | JDict kvs \<Rightarrow> Inl (KeyError (JNum i))
      | _ \<Rightarrow> Inl TypeError)"

text \<open>
  \<^verbatim>\<open>xs[:n]\<close> on a sequence: the first \<open>n\<close> elements, and for a negative \<open>n\<close> all but the
  last \<open>-n\<close>; the bound is clamped to the sequence.
\<close>

definition seq_slice_to :: "'a list \<Rightarrow> int \<Rightarrow> 'a list" where
  "seq_slice_to xs n =
     (if n < 0 then take (nat (int (length xs) + n)) xs else take (nat n) xs)"

text \<open>\<^verbatim>\<open>v[:n]\<close>: lists and strings can be sliced, a dict rejects the slice as a key.\<close>

definition slice_to :: "json \<Rightarrow> int \<Rightarrow> error + json" where
  "slice_to v n =
     (case v of
        JList xs \<Rightarrow> Inr (JList (seq_slice_to xs n))
      | JStr s \<Rightarrow> Inr (JStr (seq_slice_to s n))
      | _ \<Rightarrow> Inl TypeError)"

text \<open>\<^verbatim>\<open>for x in v\<close>: the elements of a list, the characters of a string, the keys of a dict.\<close>

definition py_iter :: "json \<Rightarrow> error + json list" where
  "py_iter v =
     (case v of
        JList xs \<Rightarrow> Inr xs
      | JStr s \<Rightarrow> Inr (map (\<lambda>c. JStr [c]) s)
      | JDict kvs \<Rightarrow> Inr (map JStr (remdups (map fst kvs)))
      | _ \<Rightarrow> Inl TypeError)"

section \<open>\<^verbatim>\<open>random.sample\<close>\<close>

text \<open>
  \<^verbatim>\<open>random.sample(population, k)\<close> raises ValueError unless \<open>0 \<le> k \<le> len(population)\<close>
  and otherwise returns \<open>k\<close> elements taken from \<open>k\<close> different positions of the
  population. The random choices are a parameter: \<open>rng i\<close> is the \<open>i\<close>-th random number,
  reduced to a position of what is left of the population, which loses the position drawn.
\<close>

type_synonym rng = "nat \<Rightarrow> nat"

definition remove_at :: "nat \<Rightarrow> 'a list \<Rightarrow> 'a list" where
  "remove_at j xs = take j xs @ drop (Suc j) xs"

fun draw :: "rng \<Rightarrow> nat \<Rightarrow> 'a list \<Rightarrow> nat \<Rightarrow> 'a list" where
  "draw rng i pool 0 = []"
| "draw rng i pool (Suc k) =
     (if pool = [] then []
      else let j = rng i mod length pool
           in pool ! j # draw rng (Suc i) (remove_at j pool) k)"

definition sample :: "rng \<Rightarrow> 'a list \<Rightarrow> int \<Rightarrow> error + 'a list" where
  "sample rng population k =
     (if 0 \<le> k \<and> k \<le> int (length population)
      then Inr (draw rng 0 population (nat k))
      else Inl SampleValueError)"

section \<open>The tool: \<^verbatim>\<open>SpotifyTool\<close>\<close>

text \<open>
  \<^verbatim>\<open>retrieve_id(artist_name)\<close>: the search, the test on \<^verbatim>\<open>len(results)\<close>, and the chain
  \<^verbatim>\<open>results['artists']['items'][0]['id']\<close>.
\<close>

definition retrieve_id :: "catalog \<Rightarrow> string \<Rightarrow> error + json" where
  "retrieve_id sp artist_name =
     (case search sp (''artist:'' @ artist_name) of
        Inl m \<Rightarrow> Inl (ClientError m)
      | Inr results \<Rightarrow>
          (case py_len results of
             Inl e \<Rightarrow> Inl e
           | Inr n \<Rightarrow>
               if n > 0 then
                 (case getitem_key results ''artists'' of
                    Inl e \<Rightarrow> Inl e
                  | Inr artists \<Rightarrow>
                      (case getitem_key artists ''items'' of
                         Inl e \<Rightarrow> Inl e
                       | Inr items \<Rightarrow>
                           (case getitem_index items 0 of
                              Inl e \<Rightarrow> Inl e
                            | Inr first \<Rightarrow> getitem_key first ''id'')))
               else Inl (NoArtistsFound artist_name)))"

text \<open>The loop of \<^verbatim>\<open>retrieve_tracks\<close>: \<^verbatim>\<open>tracks.append(track['name'])\<close> for each track.\<close>

fun append_names :: "json list \<Rightarrow> json list \<Rightarrow> error + json list" where
  "append_names [] tracks = Inr tracks"
| "append_names (track # rest) tracks =
     (case getitem_key track ''name'' of
        Inl e \<Rightarrow> Inl e
      | Inr name \<Rightarrow> append_names rest (tracks @ [name]))"

text \<open>
  \<^verbatim>\<open>retrieve_tracks(artist_id, num_tracks)\<close>: the limit is compared with 10 before the
  client is called, then it bounds the slice \<^verbatim>\<open>top_tracks['tracks'][:num_tracks]\<close>.
\<close>

definition retrieve_tracks :: "catalog \<Rightarrow> json \<Rightarrow> int \<Rightarrow> error + json list" where
  "retrieve_tracks sp artist_id num_tracks =
     (if num_tracks > 10 then Inl TooManyPerArtist
      else
        (case artist_top_tracks sp artist_id of
           Inl m \<Rightarrow> Inl (ClientError m)
         | Inr top_tracks \<Rightarrow>
             (case getitem_key top_tracks ''tracks'' of
                Inl e \<Rightarrow> Inl e
              | Inr listing \<Rightarrow>
                  (case slice_to listing num_tracks of
                     Inl e \<Rightarrow> Inl e
                   | Inr part \<Rightarrow>
                       (case py_iter part of
                          Inl e \<Rightarrow> Inl e
                        | Inr items \<Rightarrow> append_names items [])))))"

text \<open>
  \<^verbatim>\<open>all_top_tracks(artist_array)\<close>: one single-entry dict \<^verbatim>\<open>{artist: tracks}\<close> per
  artist, appended in the order of the array; the first exception ends the loop.
\<close>

type_synonym artist_map = "(string \<times> json list) list"

fun all_top_tracks_loop :: "catalog \<Rightarrow> string list \<Rightarrow> artist_map list \<Rightarrow> error + artist_map list" where
  "all_top_tracks_loop sp [] complete_track_arr = Inr complete_track_arr"
| "all_top_tracks_loop sp (artist # rest) complete_track_arr =
     (case retrieve_id sp artist of
        Inl e \<Rightarrow> Inl e
      | Inr artist_id \<Rightarrow>
          (case retrieve_tracks sp artist_id 10 of
             Inl e \<Rightarrow> Inl e
           | Inr all_tracks \<Rightarrow>
               all_top_tracks_loop sp rest (complete_track_arr @ [[(artist, all_tracks)]])))"

definition all_top_tracks :: "catalog \<Rightarrow> string list \<Rightarrow> error + artist_map list" where
  "all_top_tracks sp artist_array = all_top_tracks_loop sp artist_array []"

text \<open>
  The body of that loop for one artist: the id, then the top tracks with the limit 10.
\<close>

definition artist_tracks :: "catalog \<Rightarrow> string \<Rightarrow> error + json list" where
  "artist_tracks sp artist =
     (case retrieve_id sp artist of
        Inl e \<Rightarrow> Inl e
      | Inr artist_id \<Rightarrow> retrieve_tracks sp artist_id 10)"

text \<open>
  The comprehension of \<^verbatim>\<open>_run\<close> that flattens the maps into the pool, and the same
  comprehension keeping the artist of each track.
\<close>

definition flatten_tracks :: "artist_map list \<Rightarrow> json list" where
  "flatten_tracks all_tracks_map =
     [track. artist_map \<leftarrow> all_tracks_map, (artist, tracks) \<leftarrow> artist_map, track \<leftarrow> tracks]"

definition flatten_pairs :: "artist_map list \<Rightarrow> (string \<times> json) list" where
  "flatten_pairs all_tracks_map =
     [(artist, track). artist_map \<leftarrow> all_tracks_map, (artist, tracks) \<leftarrow> artist_map, track \<leftarrow> tracks]"

text \<open>
  \<^verbatim>\<open>_run(artists, tracks)\<close>: the aggregation comes first, the comparison with
  \<^verbatim>\<open>max_tracks\<close> second, the sample last. The prints are left out.
\<close>

definition run :: "catalog \<Rightarrow> rng \<Rightarrow> string list \<Rightarrow> int \<Rightarrow> error + json list" where
  "run sp rng artists tracks =
     (let num_artists = int (length artists);
          max_tracks = num_artists * 10
      in case all_top_tracks sp artists of
           Inl e \<Rightarrow> Inl e
         | Inr all_tracks_map \<Rightarrow>
             (let all_tracks = flatten_tracks all_tracks_map
              in if tracks > max_tracks then Inl (OverCapacity max_tracks)
                 else sample rng all_tracks tracks))"

text \<open>
  \<open>run_pairs\<close> is \<open>run\<close> sampling the pool of (artist, track) pairs with the same random
  choices: the pairs that underlie the result of \<open>run\<close>.
\<close>

definition run_pairs :: "catalog \<Rightarrow> rng \<Rightarrow> string list \<Rightarrow> int \<Rightarrow> error + (string \<times> json) list" where
  "run_pairs sp rng artists tracks =
     (let num_artists = int (length artists);
          max_tracks = num_artists * 10
      in case all_top_tracks sp artists of
           Inl e \<Rightarrow> Inl e
         | Inr all_tracks_map \<Rightarrow>
             (let all_pairs = flatten_pairs all_tracks_map
              in if tracks > max_tracks then Inl (OverCapacity max_tracks)
                 else sample rng all_pairs tracks))"

section \<open>Catalogs used as concrete inputs\<close>

text \<open>A search response with one match whose id is \<open>i\<close>, and one with no match.\<close>

definition one_match :: "string \<Rightarrow> json" where
  "one_match i = JDict [(''artists'', JDict [(''items'', JList [JDict [(''id'', JStr i)]])])]"

definition no_match :: json where
  "no_match = JDict [(''artists'', JDict [(''items'', JList [])])]"

text \<open>A top-tracks response listing the given names in order.\<close>

definition listing_of :: "string list \<Rightarrow> json" where
  "listing_of names = JDict [(''tracks'', JList (map (\<lambda>n. JDict [(''name'', JStr n)]) names))]"

text \<open>
  \<open>small_catalog\<close>: artist A has three tracks, artist B two, artist C one, every other
  query has no match.
\<close>

definition small_catalog :: catalog where
  "small_catalog =
     \<lparr> search = (\<lambda>q.
         if q = ''artist:A'' then Inr (one_match ''idA'')
         else if q = ''artist:B'' then Inr (one_match ''idB'')
         else if q = ''artist:C'' then Inr (one_match ''idC'')
         else Inr no_match),
       artist_top_tracks = (\<lambda>i.
         if i = JStr ''idA'' then Inr (listing_of [''a1'', ''a2'', ''a3''])
         else if i = JStr ''idB'' then Inr (listing_of [''b1'', ''b2''])
         else Inr (listing_of [''c1''])) \<rparr>"

text \<open>\<open>empty_catalog\<close>: every search answers with the empty object.\<close>

definition empty_catalog :: catalog where
  "empty_catalog =
     \<lparr> search = (\<lambda>q. Inr (JDict [])),
       artist_top_tracks = (\<lambda>i. Inr (listing_of [])) \<rparr>"

text \<open>
  \<open>fetch_down_catalog\<close>: every search has one match, with the id idA, and every call of
  the top-tracks endpoint raises.
\<close>

definition fetch_down_catalog :: catalog where
  "fetch_down_catalog =
     \<lparr> search = (\<lambda>q. Inr (one_match ''idA'')),
       artist_top_tracks = (\<lambda>i. Inl ''down'') \<rparr>"

text \<open>The random source that always draws the first position left.\<close>

definition first_rng :: rng where
  "first_rng = (\<lambda>i. 0)"

section \<open>The sampling primitive\<close>

lemma length_remove_at: "j < length xs \<Longrightarrow> length (remove_at j xs) = length xs - 1"
  by (simp add: remove_at_def)

lemma length_draw: "k \<le> length pool \<Longrightarrow> length (draw rng i pool k) = k"
proof (induction k arbitrary: i pool)
  case 0
  show ?case by simp
next
  case (Suc k)
  then have ne: "pool \<noteq> []" by auto
  then have j: "rng i mod length pool < length pool" by simp
  have "k \<le> length (remove_at (rng i mod length pool) pool)"
    using Suc.prems by (simp add: length_remove_at [OF j])
  then show ?case using ne by (simp add: Let_def Suc.IH)
qed

lemma sample_length: "sample rng population k = Inr ys \<Longrightarrow> int (length ys) = k"
  by (auto simp: sample_def length_draw split: if_splits)

lemma mset_remove_at: "j < length xs \<Longrightarrow> add_mset (xs ! j) (mset (remove_at j xs)) = mset xs"
proof -
  assume j: "j < length xs"
  then have "xs = take j xs @ xs ! j # drop (Suc j) xs" by (simp add: id_take_nth_drop)
  then have "mset xs = mset (take j xs @ xs ! j # drop (Suc j) xs)" by simp
  then show ?thesis by (simp add: remove_at_def)
qed

lemma mset_draw: "mset (draw rng i pool k) \<subseteq># mset pool"
proof (induction k arbitrary: i pool)
  case 0
  show ?case by simp
next
  case (Suc k)
  show ?case
  proof (cases "pool = []")
    case True
    then show ?thesis by simp
  next
    case False
    let ?j = "rng i mod length pool"
    from False have j: "?j < length pool" by simp
    have "mset (draw rng (Suc i) (remove_at ?j pool) k) \<subseteq># mset (remove_at ?j pool)"
      by (rule Suc.IH)
    then have "add_mset (pool ! ?j) (mset (draw rng (Suc i) (remove_at ?j pool) k))
        \<subseteq># add_mset (pool ! ?j) (mset (remove_at ?j pool))"
      by simp
    then show ?thesis using False by (simp add: Let_def mset_remove_at [OF j])
  qed
qed

lemma distinct_draw: "distinct pool \<Longrightarrow> distinct (draw rng i pool k)"
proof -
  assume d: "distinct pool"
  have "count (mset (draw rng i pool k)) x \<le> 1" for x
  proof -
    have "count (mset (draw rng i pool k)) x \<le> count (mset pool) x"
      using mset_draw by (rule mset_subset_eq_count)
    also have "\<dots> \<le> 1" using d by (simp add: distinct_count_atmost_1)
    finally show ?thesis .
  qed
  then show ?thesis unfolding distinct_count_atmost_1 
    by (metis count_mset_0_iff le_antisym not_less_eq_eq not_one_le_zero One_nat_def le_zero_eq)
qed

lemma remove_at_map: "remove_at j (map f xs) = map f (remove_at j xs)"
  by (simp add: remove_at_def take_map drop_map)

lemma draw_map: "draw rng i (map f pool) k = map f (draw rng i pool k)"
proof (induction k arbitrary: i pool)
  case 0
  show ?case by simp
next
  case (Suc k)
  show ?case
  proof (cases "pool = []")
    case True
    then show ?thesis by simp
  next
    case False
    then have "rng i mod length pool < length pool" by simp
    then show ?thesis using False by (simp add: Let_def remove_at_map Suc.IH)
  qed
qed

lemma sample_map: "sample rng (map f xs) k = map_sum id (map f) (sample rng xs k)"
  by (simp add: sample_def draw_map)

section \<open>The length of a recommendation\<close>

text \<open>
  C1: whenever \<open>run\<close> (the method \<^verbatim>\<open>_run\<close>) returns a list, its length is the requested
  number of tracks.
\<close>

theorem run_length:
  "run sp rng artists tracks = Inr final_tracks \<Longrightarrow> int (length final_tracks) = tracks"
  by (auto simp: run_def Let_def sample_length split: sum.splits if_splits)

theorem run_length_witness:
  "run small_catalog first_rng [''A'', ''B''] 4 = Inr [JStr ''a1'', JStr ''a2'', JStr ''a3'', JStr ''b1'']
   \<and> int (length [JStr ''a1'', JStr ''a2'', JStr ''a3'', JStr ''b1'']) = 4"
proof -
  have r: "run small_catalog first_rng [''A'', ''B''] 4
      = Inr [JStr ''a1'', JStr ''a2'', JStr ''a3'', JStr ''b1'']"
    by code_simp
  from run_length [OF r] r show ?thesis by simp
qed

section \<open>The pairs under a recommendation\<close>

lemma flatten_tracks_pairs: "flatten_tracks m = map snd (flatten_pairs m)"
  by (simp add: flatten_tracks_def flatten_pairs_def map_concat comp_def split_def)

lemma run_run_pairs: "run sp rng artists tracks = map_sum id (map snd) (run_pairs sp rng artists tracks)"
  by (simp add: run_def run_pairs_def Let_def flatten_tracks_pairs sample_map split: sum.splits)

section \<open>The aggregation\<close>

lemma loop_step:
  "all_top_tracks_loop sp (a # as) acc =
     (case artist_tracks sp a of
        Inl e \<Rightarrow> Inl e
      | Inr ts \<Rightarrow> all_top_tracks_loop sp as (acc @ [[(a, ts)]]))"
  by (simp add: artist_tracks_def split: sum.splits)

lemma loop_Inr_iff:
  "all_top_tracks_loop sp as acc = Inr r \<longleftrightarrow>
     (\<forall>a\<in>set as. \<exists>ts. artist_tracks sp a = Inr ts) \<and>
     r = acc @ map (\<lambda>a. [(a, projr (artist_tracks sp a))]) as"
proof (induction as arbitrary: acc)
  case Nil
  show ?case by auto
next
  case (Cons a as)
  show ?case
  proof (cases "artist_tracks sp a")
    case (Inl e)
    then show ?thesis by (auto simp: loop_step simp del: all_top_tracks_loop.simps)
  next
    case (Inr ts)
    then show ?thesis by (auto simp: loop_step Cons.IH simp del: all_top_tracks_loop.simps)
  qed
qed

lemma all_top_tracks_Inr_iff:
  "all_top_tracks sp as = Inr r \<longleftrightarrow>
     (\<forall>a\<in>set as. \<exists>ts. artist_tracks sp a = Inr ts) \<and>
     r = map (\<lambda>a. [(a, projr (artist_tracks sp a))]) as"
  by (simp add: all_top_tracks_def loop_Inr_iff)

lemma map_of_entries:
  "map_of (concat (map (\<lambda>a. [(a, f a)]) as)) = (\<lambda>a. if a \<in> set as then Some (f a) else None)"
  by (induction as) (auto simp: fun_eq_iff)

lemma set_entries: "set (concat (map (\<lambda>a. [(a, f a)]) as)) = (\<lambda>a. (a, f a)) ` set as"
  by (induction as) auto

text \<open>
  C7: the aggregation of a permutation of the artist queries holds the same single-entry
  maps, in another order, and is the same mapping from artist query to track list; each
  query has one track list only. When the aggregation of one order raises, so does the
  aggregation of every other order.
\<close>

theorem all_top_tracks_order:
  assumes "mset artists' = mset artists"
  shows "case all_top_tracks sp artists of
           Inl e \<Rightarrow> \<exists>e'. all_top_tracks sp artists' = Inl e'
         | Inr m \<Rightarrow> \<exists>m'. all_top_tracks sp artists' = Inr m' \<and> mset m' = mset m
              \<and> map_of (concat m') = map_of (concat m)
              \<and> single_valued (set (concat m))"
proof -
  from assms have s: "set artists' = set artists" by (rule mset_eq_setD)
  let ?f = "\<lambda>a. projr (artist_tracks sp a)"
  show ?thesis
  proof (cases "all_top_tracks sp artists")
    case (Inl e)
    have "all_top_tracks sp artists' \<noteq> Inr m'" for m'
    proof
      assume "all_top_tracks sp artists' = Inr m'"
      then have "\<forall>a\<in>set artists. \<exists>ts. artist_tracks sp a = Inr ts"
        by (simp add: all_top_tracks_Inr_iff s)
      then have "all_top_tracks sp artists = Inr (map (\<lambda>a. [(a, ?f a)]) artists)"
        by (simp add: all_top_tracks_Inr_iff)
      with Inl show False by simp
    qed
    then have "\<exists>e'. all_top_tracks sp artists' = Inl e'"
      by (cases "all_top_tracks sp artists'") auto
    with Inl show ?thesis by simp
  next
    case (Inr m)
    then have ok: "\<forall>a\<in>set artists. \<exists>ts. artist_tracks sp a = Inr ts"
      and m: "m = map (\<lambda>a. [(a, ?f a)]) artists"
      by (simp_all add: all_top_tracks_Inr_iff)
    let ?m' = "map (\<lambda>a. [(a, ?f a)]) artists'"
    have r': "all_top_tracks sp artists' = Inr ?m'"
      using ok by (simp add: all_top_tracks_Inr_iff s)
    have p: "mset ?m' = mset m"
      by (simp only: m mset_map assms)
    have q: "map_of (concat ?m') = map_of (concat m)"
      unfolding m by (simp only: map_of_entries s)
    have sv: "single_valued (set (concat m))"
      unfolding m by (auto simp only: set_entries single_valued_def)
    from r' p q sv Inr show ?thesis by simp
  qed
qed

theorem all_top_tracks_order_witness:
  "mset [''B'', ''A''] = mset [''A'', ''B'']
   \<and> all_top_tracks small_catalog [''A'', ''B''] =
       Inr [[(''A'', [JStr ''a1'', JStr ''a2'', JStr ''a3''])], [(''B'', [JStr ''b1'', JStr ''b2''])]]
   \<and> all_top_tracks small_catalog [''B'', ''A''] =
       Inr [[(''B'', [JStr ''b1'', JStr ''b2''])], [(''A'', [JStr ''a1'', JStr ''a2'', JStr ''a3''])]]
   \<and> map_of (concat [[(''B'', [JStr ''b1'', JStr ''b2''])], [(''A'', [JStr ''a1'', JStr ''a2'', JStr ''a3''])]])
     = map_of (concat [[(''A'', [JStr ''a1'', JStr ''a2'', JStr ''a3''])], [(''B'', [JStr ''b1'', JStr ''b2''])]])"
proof -
  have p: "mset [''B'', ''A''] = mset [''A'', ''B'']" by simp
  have ab: "all_top_tracks small_catalog [''A'', ''B''] =
       Inr [[(''A'', [JStr ''a1'', JStr ''a2'', JStr ''a3''])], [(''B'', [JStr ''b1'', JStr ''b2''])]]"
    by code_simp
  have ba: "all_top_tracks small_catalog [''B'', ''A''] =
       Inr [[(''B'', [JStr ''b1'', JStr ''b2''])], [(''A'', [JStr ''a1'', JStr ''a2'', JStr ''a3''])]]"
    by code_simp
  from all_top_tracks_order [OF p, of small_catalog] ab ba p show ?thesis
    by (simp del: mset.simps map_of.simps concat.simps)
qed

section \<open>Sampling without replacement\<close>

lemma flatten_pairs_entries:
  "flatten_pairs (map (\<lambda>a. [(a, f a)]) as) = concat (map (\<lambda>a. map (Pair a) (f a)) as)"
  by (induction as) (simp_all add: flatten_pairs_def)

lemma distinct_tagged:
  "distinct as \<Longrightarrow> \<forall>a\<in>set as. distinct (f a) \<Longrightarrow>
   distinct (concat (map (\<lambda>a. map (Pair a) (f a)) as))"
proof (induction as)
  case Nil
  show ?case by simp
next
  case (Cons a as)
  have "distinct (map (Pair a) (f a))"
    using Cons.prems by (simp add: distinct_map inj_on_def)
  moreover have "distinct (concat (map (\<lambda>a. map (Pair a) (f a)) as))"
    using Cons by simp
  moreover have "set (map (Pair a) (f a)) \<inter> set (concat (map (\<lambda>a. map (Pair a) (f a)) as)) = {}"
    using Cons.prems by auto
  ultimately show ?case by simp
qed

lemma sample_mset: "sample rng xs k = Inr ys \<Longrightarrow> mset ys \<subseteq># mset xs"
  by (auto simp: sample_def mset_draw split: if_splits)

lemma sample_distinct: "sample rng xs k = Inr ys \<Longrightarrow> distinct xs \<Longrightarrow> distinct ys"
  by (auto simp: sample_def distinct_draw split: if_splits)

lemma run_pairs_Inr:
  "run_pairs sp rng artists tracks = Inr ps \<Longrightarrow>
   \<exists>m. all_top_tracks sp artists = Inr m \<and> sample rng (flatten_pairs m) tracks = Inr ps"
  by (auto simp: run_pairs_def Let_def split: sum.splits if_splits)

text \<open>
  C2, as amended: a recommendation that \<open>run\<close> returns is the track components of
  pairs drawn from the pool of (artist, track) pairs, each entry of the pool drawn at most
  once. When the artist queries of the request are pairwise different and no artist's
  fetched list repeats a track name, no (artist, track) pair occurs twice.
\<close>

theorem run_pairs_distinct:
  assumes "run sp rng artists tracks = Inr final_tracks"
  shows "\<exists>m ps. all_top_tracks sp artists = Inr m
           \<and> run_pairs sp rng artists tracks = Inr ps
           \<and> final_tracks = map snd ps
           \<and> mset ps \<subseteq># mset (flatten_pairs m)
           \<and> (distinct artists \<and> (\<forall>a\<in>set artists. \<forall>ts. artist_tracks sp a = Inr ts \<longrightarrow> distinct ts)
                \<longrightarrow> distinct ps)"
proof -
  from assms obtain ps where ps: "run_pairs sp rng artists tracks = Inr ps"
    and ft: "final_tracks = map snd ps"
    by (cases "run_pairs sp rng artists tracks") (auto simp: run_run_pairs)
  from run_pairs_Inr [OF ps] obtain m where m: "all_top_tracks sp artists = Inr m"
    and s: "sample rng (flatten_pairs m) tracks = Inr ps"
    by blast
  let ?f = "\<lambda>a. projr (artist_tracks sp a)"
  from m have ok: "\<forall>a\<in>set artists. \<exists>ts. artist_tracks sp a = Inr ts"
    and m_eq: "m = map (\<lambda>a. [(a, ?f a)]) artists"
    by (simp_all add: all_top_tracks_Inr_iff)
  have sub: "mset ps \<subseteq># mset (flatten_pairs m)"
    using s by (rule sample_mset)
  have d: "distinct ps"
    if da: "distinct artists"
      and dt: "\<forall>a\<in>set artists. \<forall>ts. artist_tracks sp a = Inr ts \<longrightarrow> distinct ts"
  proof -
    have "\<forall>a\<in>set artists. distinct (?f a)"
    proof
      fix a assume a: "a \<in> set artists"
      with ok obtain ts where "artist_tracks sp a = Inr ts" by blast
      with dt a show "distinct (?f a)" by auto
    qed
    with da have "distinct (flatten_pairs m)"
      unfolding m_eq flatten_pairs_entries by (rule distinct_tagged)
    with s show ?thesis by (rule sample_distinct)
  qed
  from m ps ft sub d show ?thesis by blast
qed

theorem run_pairs_distinct_witness:
  "run small_catalog first_rng [''A'', ''B''] 4 = Inr [JStr ''a1'', JStr ''a2'', JStr ''a3'', JStr ''b1'']
   \<and> run_pairs small_catalog first_rng [''A'', ''B''] 4 =
       Inr [(''A'', JStr ''a1''), (''A'', JStr ''a2''), (''A'', JStr ''a3''), (''B'', JStr ''b1'')]
   \<and> distinct [(''A'', JStr ''a1''), (''A'', JStr ''a2''), (''A'', JStr ''a3''), (''B'', JStr ''b1'')]"
proof -
  have r: "run small_catalog first_rng [''A'', ''B''] 4
      = Inr [JStr ''a1'', JStr ''a2'', JStr ''a3'', JStr ''b1'']"
    by code_simp
  have p: "run_pairs small_catalog first_rng [''A'', ''B''] 4 =
       Inr [(''A'', JStr ''a1''), (''A'', JStr ''a2''), (''A'', JStr ''a3''), (''B'', JStr ''b1'')]"
    by code_simp
  have a: "artist_tracks small_catalog ''A'' = Inr [JStr ''a1'', JStr ''a2'', JStr ''a3'']"
    by code_simp
  have b: "artist_tracks small_catalog ''B'' = Inr [JStr ''b1'', JStr ''b2'']"
    by code_simp
  have h: "distinct [''A'', ''B''] \<and>
      (\<forall>a\<in>set [''A'', ''B'']. \<forall>ts. artist_tracks small_catalog a = Inr ts \<longrightarrow> distinct ts)"
    using a b by auto
  from run_pairs_distinct [OF r] h p have
    "distinct [(''A'', JStr ''a1''), (''A'', JStr ''a2''), (''A'', JStr ''a3''), (''B'', JStr ''b1'')]"
    by (auto simp del: distinct.simps)
  with r p show ?thesis by (simp del: distinct.simps)
qed

text \<open>
  C2 as stated fails when the request repeats a query: the tracks of C enter the pool
  once per occurrence, and two positions of the pool give the same pair.
\<close>

theorem run_pairs_distinct_counterexample:
  "run small_catalog first_rng [''C'', ''C''] 2 = Inr [JStr ''c1'', JStr ''c1'']
   \<and> run_pairs small_catalog first_rng [''C'', ''C''] 2 = Inr [(''C'', JStr ''c1''), (''C'', JStr ''c1'')]
   \<and> \<not> distinct [(''C'', JStr ''c1''), (''C'', JStr ''c1'')]"
proof -
  have r: "run small_catalog first_rng [''C'', ''C''] 2 = Inr [JStr ''c1'', JStr ''c1'']"
    by code_simp
  have p: "run_pairs small_catalog first_rng [''C'', ''C''] 2
      = Inr [(''C'', JStr ''c1''), (''C'', JStr ''c1'')]"
    by code_simp
  from r p show ?thesis by simp
qed

section \<open>The capacity check\<close>

text \<open>
  C3, as amended: a request for more than ten tracks per artist never returns a list. It
  ends with the capacity error when the aggregation returns, and with the aggregation's
  own error otherwise, since the aggregation runs before the comparison.
\<close>

theorem run_over_capacity:
  "10 * int (length artists) < tracks \<Longrightarrow>
   run sp rng artists tracks =
     (case all_top_tracks sp artists of
        Inl e \<Rightarrow> Inl e
      | Inr m \<Rightarrow> Inl (OverCapacity (10 * int (length artists))))"
  by (simp add: run_def Let_def mult.commute split: sum.splits)

theorem run_over_capacity_witness:
  "10 * int (length [''A'']) < 11 \<and> run small_catalog first_rng [''A''] 11 = Inl (OverCapacity 10)"
proof -
  have h: "10 * int (length [''A'']) < 11" by simp
  have a: "all_top_tracks small_catalog [''A''] = Inr [[(''A'', [JStr ''a1'', JStr ''a2'', JStr ''a3''])]]"
    by code_simp
  from run_over_capacity [OF h, of small_catalog first_rng] a h show ?thesis by simp
qed

text \<open>
  C3 as stated fails when the aggregation raises first: 25 tracks of one artist whose
  search answers with the empty object end with the error of \<open>retrieve_id\<close>.
\<close>

theorem run_over_capacity_counterexample:
  "10 * int (length [''Z'']) < 25
   \<and> run empty_catalog first_rng [''Z''] 25 = Inl (NoArtistsFound ''Z'')
   \<and> run empty_catalog first_rng [''Z''] 25 \<noteq> Inl (OverCapacity (10 * int (length [''Z''])))"
proof -
  have r: "run empty_catalog first_rng [''Z''] 25 = Inl (NoArtistsFound ''Z'')"
    by code_simp
  then show ?thesis by simp
qed

section \<open>A pool shorter than the request\<close>

text \<open>
  C5, as amended: when the aggregation returns a pool shorter than the requested count
  and the count is within ten per artist, \<open>run\<close> ends with the ValueError that
  \<open>sample\<close> raises on that pool; there is no earlier check of the pool's size.
\<close>

theorem run_short_pool:
  assumes "all_top_tracks sp artists = Inr m"
    and "int (length (flatten_tracks m)) < tracks"
    and "tracks \<le> 10 * int (length artists)"
  shows "sample rng (flatten_tracks m) tracks = Inl SampleValueError
         \<and> run sp rng artists tracks = Inl SampleValueError"
  using assms by (simp add: run_def Let_def sample_def)

theorem run_short_pool_witness:
  "all_top_tracks small_catalog [''A''] = Inr [[(''A'', [JStr ''a1'', JStr ''a2'', JStr ''a3''])]]
   \<and> int (length (flatten_tracks [[(''A'', [JStr ''a1'', JStr ''a2'', JStr ''a3''])]])) < 4
   \<and> (4::int) \<le> 10 * int (length [''A''])
   \<and> run small_catalog (\<lambda>i. i) [''A''] 4 = Inl SampleValueError"
proof -
  have a: "all_top_tracks small_catalog [''A''] = Inr [[(''A'', [JStr ''a1'', JStr ''a2'', JStr ''a3''])]]"
    by code_simp
  have l: "int (length (flatten_tracks [[(''A'', [JStr ''a1'', JStr ''a2'', JStr ''a3''])]])) < 4"
    by (simp add: flatten_tracks_def)
  have c: "(4::int) \<le> 10 * int (length [''A''])" by simp
  from run_short_pool [OF a l c, of "\<lambda>i. i"] a l c show ?thesis by simp
qed

text \<open>
  C5 as stated fails: five tracks of artist A, who has three, end with the error raised
  inside \<open>sample\<close>.
\<close>

theorem run_short_pool_counterexample:
  "all_top_tracks small_catalog [''A''] = Inr [[(''A'', [JStr ''a1'', JStr ''a2'', JStr ''a3''])]]
   \<and> flatten_tracks [[(''A'', [JStr ''a1'', JStr ''a2'', JStr ''a3''])]] = [JStr ''a1'', JStr ''a2'', JStr ''a3'']
   \<and> (5::int) \<le> 10 * int (length [''A''])
   \<and> sample first_rng [JStr ''a1'', JStr ''a2'', JStr ''a3''] 5 = Inl SampleValueError
   \<and> run small_catalog first_rng [''A''] 5 = Inl SampleValueError"
proof -
  have a: "all_top_tracks small_catalog [''A''] = Inr [[(''A'', [JStr ''a1'', JStr ''a2'', JStr ''a3''])]]"
    by code_simp
  have r: "run small_catalog first_rng [''A''] 5 = Inl SampleValueError"
    by code_simp
  from a r show ?thesis by (simp add: flatten_tracks_def sample_def)
qed

section \<open>A request for no tracks\<close>

text \<open>
  C9, as amended: with a requested count of 0, \<open>run\<close> returns the empty list whenever,
  for every artist of the list, the lookup of the id returns and the fetch of the top
  tracks returns their names; for the empty artist list it returns the empty list as
  well, so neither the count nor the empty list is rejected. In every case \<open>run\<close> with
  the count 0 returns the empty list when the aggregation returns, and ends with the
  error of the aggregation otherwise.
\<close>

theorem run_zero_tracks:
  "((\<forall>a\<in>set artists. \<exists>ts. artist_tracks sp a = Inr ts) \<longrightarrow> run sp rng artists 0 = Inr [])
   \<and> run sp rng [] 0 = Inr []
   \<and> run sp rng artists 0 =
        (case all_top_tracks sp artists of Inl e \<Rightarrow> Inl e | Inr m \<Rightarrow> Inr [])"
proof -
  have eq: "run sp rng artists 0 =
      (case all_top_tracks sp artists of Inl e \<Rightarrow> Inl e | Inr m \<Rightarrow> Inr [])"
    by (simp add: run_def Let_def sample_def split: sum.splits)
  have "run sp rng artists 0 = Inr []"
    if "\<forall>a\<in>set artists. \<exists>ts. artist_tracks sp a = Inr ts"
  proof -
    from that obtain m where "all_top_tracks sp artists = Inr m"
      by (simp add: all_top_tracks_Inr_iff)
    then show ?thesis by (simp add: eq)
  qed
  moreover have "run sp rng [] 0 = Inr []"
    by (simp add: run_def all_top_tracks_def flatten_tracks_def sample_def)
  ultimately show ?thesis using eq by blast
qed

theorem run_zero_tracks_witness:
  "artist_tracks small_catalog ''A'' = Inr [JStr ''a1'', JStr ''a2'', JStr ''a3'']
   \<and> artist_tracks small_catalog ''B'' = Inr [JStr ''b1'', JStr ''b2'']
   \<and> run small_catalog first_rng [''A'', ''B''] 0 = Inr []
   \<and> run small_catalog first_rng [] 0 = Inr []"
proof -
  have a: "artist_tracks small_catalog ''A'' = Inr [JStr ''a1'', JStr ''a2'', JStr ''a3'']"
    by code_simp
  have b: "artist_tracks small_catalog ''B'' = Inr [JStr ''b1'', JStr ''b2'']"
    by code_simp
  have h: "\<forall>a\<in>set [''A'', ''B'']. \<exists>ts. artist_tracks small_catalog a = Inr ts"
    using a b by simp
  from run_zero_tracks [of "[''A'', ''B'']" small_catalog first_rng]
       run_zero_tracks [of "[]" small_catalog first_rng] h a b
  show ?thesis by blast
qed

text \<open>
  C9 as stated fails when an artist resolves and the fetch of the top tracks does not
  return: in \<open>fetch_down_catalog\<close> the lookup of A returns the id, and the request for
  0 tracks of A ends with the error of the client instead of the empty list.
\<close>

theorem run_zero_tracks_counterexample:
  "retrieve_id fetch_down_catalog ''A'' = Inr (JStr ''idA'')
   \<and> run fetch_down_catalog first_rng [''A''] 0 = Inl (ClientError ''down'')
   \<and> run fetch_down_catalog first_rng [''A''] 0 \<noteq> Inr []"
proof -
  have i: "retrieve_id fetch_down_catalog ''A'' = Inr (JStr ''idA'')"
    by code_simp
  have r: "run fetch_down_catalog first_rng [''A''] 0 = Inl (ClientError ''down'')"
    by code_simp
  from i r show ?thesis by simp
qed

section \<open>The top tracks of an artist\<close>

lemma append_names_Inr_iff:
  "append_names xs acc = Inr r \<longleftrightarrow>
     (\<exists>ns. r = acc @ ns \<and> list_all2 (\<lambda>t n. getitem_key t ''name'' = Inr n) xs ns)"
proof (induction xs arbitrary: acc)
  case Nil
  show ?case by auto
next
  case (Cons x xs)
  show ?case
  proof (cases "getitem_key x ''name''")
    case (Inl e)
    then show ?thesis by (auto simp: list_all2_Cons1)
  next
    case (Inr n)
    then show ?thesis by (auto simp: Cons.IH list_all2_Cons1)
  qed
qed

lemma getitem_key_error: "getitem_key v k = Inl e \<Longrightarrow> e = TypeError \<or> e = KeyError (JStr k)"
  by (auto simp: getitem_key_def split: json.splits option.splits)

lemma append_names_error:
  "append_names xs acc = Inl e \<Longrightarrow> e = TypeError \<or> e = KeyError (JStr ''name'')"
proof (induction xs arbitrary: acc)
  case Nil
  then show ?case by simp
next
  case (Cons x xs)
  then show ?case
    by (cases "getitem_key x ''name''") (auto dest: getitem_key_error)
qed

lemma append_names_take:
  "append_names ts [] = Inr names \<Longrightarrow> append_names (take k ts) [] = Inr (take k names)"
  by (auto simp: append_names_Inr_iff intro: list_all2_takeI)

lemma retrieve_tracks_list:
  assumes "num_tracks \<le> 10"
    and "artist_top_tracks sp artist_id = Inr top_tracks"
    and "getitem_key top_tracks ''tracks'' = Inr (JList ts)"
  shows "retrieve_tracks sp artist_id num_tracks = append_names (seq_slice_to ts num_tracks) []"
  using assms by (simp add: retrieve_tracks_def slice_to_def py_iter_def)

text \<open>
  C10: a negative limit passes the comparison with 10. On a fetched list of tracks,
  \<open>retrieve_tracks\<close> then collects the names of all tracks but the last \<open>-limit\<close>
  ones (of none when the list has at most \<open>-limit\<close> tracks): it returns the names of
  the list without the last \<open>-limit\<close> of them whenever every track has a name.
\<close>

theorem retrieve_tracks_negative:
  assumes "num_tracks < 0"
    and "artist_top_tracks sp artist_id = Inr top_tracks"
    and "getitem_key top_tracks ''tracks'' = Inr (JList ts)"
  shows "retrieve_tracks sp artist_id num_tracks \<noteq> Inl TooManyPerArtist
       \<and> retrieve_tracks sp artist_id num_tracks
           = append_names (take (length ts - nat (- num_tracks)) ts) []
       \<and> (\<forall>names. append_names ts [] = Inr names \<longrightarrow>
            retrieve_tracks sp artist_id num_tracks
              = Inr (take (length names - nat (- num_tracks)) names))
       \<and> (length ts \<le> nat (- num_tracks) \<longrightarrow> retrieve_tracks sp artist_id num_tracks = Inr [])"
proof -
  let ?k = "length ts - nat (- num_tracks)"
  from assms(1) have k: "nat (int (length ts) + num_tracks) = ?k" by linarith
  from assms have "retrieve_tracks sp artist_id num_tracks = append_names (seq_slice_to ts num_tracks) []"
    by (intro retrieve_tracks_list) simp_all
  with assms(1) k have eq: "retrieve_tracks sp artist_id num_tracks = append_names (take ?k ts) []"
    by (simp add: seq_slice_to_def)
  have "retrieve_tracks sp artist_id num_tracks \<noteq> Inl TooManyPerArtist"
    unfolding eq using append_names_error [of "take ?k ts" "[]" TooManyPerArtist] by auto
  moreover have "retrieve_tracks sp artist_id num_tracks = Inr (take (length names - nat (- num_tracks)) names)"
    if "append_names ts [] = Inr names" for names
  proof -
    from that have "length names = length ts"
      by (auto simp: append_names_Inr_iff dest: list_all2_lengthD)
    with that show ?thesis unfolding eq by (simp add: append_names_take)
  qed
  moreover have "retrieve_tracks sp artist_id num_tracks = Inr []" if "length ts \<le> nat (- num_tracks)"
    unfolding eq using that by simp
  ultimately show ?thesis using eq by blast
qed

theorem retrieve_tracks_negative_witness:
  "(- 1 :: int) < 0
   \<and> artist_top_tracks small_catalog (JStr ''idA'') = Inr (listing_of [''a1'', ''a2'', ''a3''])
   \<and> retrieve_tracks small_catalog (JStr ''idA'') (- 1) = Inr [JStr ''a1'', JStr ''a2'']
   \<and> retrieve_tracks small_catalog (JStr ''idA'') (- 1) \<noteq> Inl TooManyPerArtist"
proof -
  have n: "(- 1 :: int) < 0" by simp
  have t: "artist_top_tracks small_catalog (JStr ''idA'') = Inr (listing_of [''a1'', ''a2'', ''a3''])"
    by (simp add: small_catalog_def)
  have l: "getitem_key (listing_of [''a1'', ''a2'', ''a3'']) ''tracks''
      = Inr (JList [JDict [(''name'', JStr ''a1'')], JDict [(''name'', JStr ''a2'')],
                    JDict [(''name'', JStr ''a3'')]])"
    by (simp add: listing_of_def getitem_key_def)
  from retrieve_tracks_negative [OF n t l] t show ?thesis
    by (simp add: getitem_key_def)
qed

text \<open>
  C6, as amended: a limit above 10 ends with the limit error. For a limit from 0 to 10, a
  list that \<open>retrieve_tracks\<close> returns has at most limit, hence at most 10, names:
  the names of the first tracks of the catalog's listing, in the listing's order; and it
  does return them when the listing is a list of tracks that all have a name.
\<close>

theorem retrieve_tracks_limit:
  "(10 < num_tracks \<longrightarrow> retrieve_tracks sp artist_id num_tracks = Inl TooManyPerArtist)
   \<and> (0 \<le> num_tracks \<and> num_tracks \<le> 10 \<and> retrieve_tracks sp artist_id num_tracks = Inr names \<longrightarrow>
        length names \<le> nat num_tracks \<and> length names \<le> 10 \<and>
        (\<exists>top_tracks listing items.
            artist_top_tracks sp artist_id = Inr top_tracks \<and>
            getitem_key top_tracks ''tracks'' = Inr listing \<and>
            py_iter listing = Inr items \<and>
            length names = min (nat num_tracks) (length items) \<and>
            (\<forall>j<length names. getitem_key (items ! j) ''name'' = Inr (names ! j))))
   \<and> (0 \<le> num_tracks \<and> num_tracks \<le> 10 \<and> artist_top_tracks sp artist_id = Inr response \<and>
        getitem_key response ''tracks'' = Inr (JList ts) \<and> append_names ts [] = Inr all_names \<longrightarrow>
        retrieve_tracks sp artist_id num_tracks = Inr (take (nat num_tracks) all_names))"
proof -
  have over: "retrieve_tracks sp artist_id num_tracks = Inl TooManyPerArtist" if "10 < num_tracks"
    using that by (simp add: retrieve_tracks_def)
  have part: "length names \<le> nat num_tracks \<and> length names \<le> 10 \<and>
        (\<exists>top_tracks listing items.
            artist_top_tracks sp artist_id = Inr top_tracks \<and>
            getitem_key top_tracks ''tracks'' = Inr listing \<and>
            py_iter listing = Inr items \<and>
            length names = min (nat num_tracks) (length items) \<and>
            (\<forall>j<length names. getitem_key (items ! j) ''name'' = Inr (names ! j)))"
    if n0: "0 \<le> num_tracks" and n10: "num_tracks \<le> 10"
      and r: "retrieve_tracks sp artist_id num_tracks = Inr names"
  proof -
    from r n10 obtain top_tracks listing part items where
      top: "artist_top_tracks sp artist_id = Inr top_tracks"
      and listing: "getitem_key top_tracks ''tracks'' = Inr listing"
      and sl: "slice_to listing num_tracks = Inr part"
      and it: "py_iter part = Inr items"
      and ap: "append_names items [] = Inr names"
      by (auto simp: retrieve_tracks_def split: sum.splits if_splits)
    from ap have all2: "list_all2 (\<lambda>t n. getitem_key t ''name'' = Inr n) items names"
      by (simp add: append_names_Inr_iff)
    then have len: "length names = length items" by (simp add: list_all2_lengthD)
    from sl it n0 obtain whole where
      whole: "py_iter listing = Inr whole" and items: "items = take (nat num_tracks) whole"
      by (auto simp: slice_to_def py_iter_def seq_slice_to_def take_map split: json.splits)
    have l1: "length names = min (nat num_tracks) (length whole)"
      using len items by simp
    have nm: "getitem_key (whole ! j) ''name'' = Inr (names ! j)" if "j < length names" for j
    proof -
      from that len have "j < length items" by simp
      with all2 have "getitem_key (items ! j) ''name'' = Inr (names ! j)"
        by (rule list_all2_nthD)
      moreover from \<open>j < length items\<close> items have "items ! j = whole ! j" by simp
      ultimately show ?thesis by simp
    qed
    from l1 n10 have "length names \<le> nat num_tracks" "length names \<le> 10" by linarith+
    with top listing whole l1 nm show ?thesis by blast
  qed
  have good: "retrieve_tracks sp artist_id num_tracks = Inr (take (nat num_tracks) all_names)"
    if "0 \<le> num_tracks" "num_tracks \<le> 10" "artist_top_tracks sp artist_id = Inr response"
      "getitem_key response ''tracks'' = Inr (JList ts)" "append_names ts [] = Inr all_names"
  proof -
    from that have "retrieve_tracks sp artist_id num_tracks = append_names (seq_slice_to ts num_tracks) []"
      by (intro retrieve_tracks_list) simp_all
    with that show ?thesis by (simp add: seq_slice_to_def append_names_take)
  qed
  from over part good show ?thesis by blast
qed

theorem retrieve_tracks_limit_witness:
  "retrieve_tracks small_catalog (JStr ''idA'') 11 = Inl TooManyPerArtist
   \<and> retrieve_tracks small_catalog (JStr ''idA'') 2 = Inr [JStr ''a1'', JStr ''a2'']
   \<and> length [JStr ''a1'', JStr ''a2''] \<le> nat 2"
proof -
  have r: "retrieve_tracks small_catalog (JStr ''idA'') 2 = Inr [JStr ''a1'', JStr ''a2'']"
    by code_simp
  from retrieve_tracks_limit [of 11 small_catalog "JStr ''idA''"]
  have a: "retrieve_tracks small_catalog (JStr ''idA'') 11 = Inl TooManyPerArtist" by simp
  from retrieve_tracks_limit [of 2 small_catalog "JStr ''idA''" "[JStr ''a1'', JStr ''a2'']"] r
  have b: "length [JStr ''a1'', JStr ''a2''] \<le> nat 2" by simp
  from a r b show ?thesis by simp
qed

text \<open>
  C6 as stated fails for a negative limit, which is not greater than 10: the limit -1
  on the three tracks of artist A returns two names.
\<close>

theorem retrieve_tracks_limit_counterexample:
  "(- 1 :: int) \<le> 10
   \<and> retrieve_tracks small_catalog (JStr ''idA'') (- 1) = Inr [JStr ''a1'', JStr ''a2'']
   \<and> \<not> int (length [JStr ''a1'', JStr ''a2'']) \<le> - 1"
proof -
  have r: "retrieve_tracks small_catalog (JStr ''idA'') (- 1) = Inr [JStr ''a1'', JStr ''a2'']"
    by code_simp
  then show ?thesis by simp
qed

section \<open>The lookup of an artist\<close>

lemma py_len_dict_zero: "py_len (JDict kvs) = Inr 0 \<longleftrightarrow> kvs = []"
  by (simp add: py_len_def)

text \<open>
  C8: on a search that returns, \<open>retrieve_id\<close> raises its "No artists found" error
  exactly when \<open>len\<close> of the whole response is 0. A response object with a key
  \<open>artists\<close> never reaches that error, and when its list of items is empty the lookup
  ends with the IndexError of \<open>[0]\<close>.
\<close>

theorem retrieve_id_branch:
  assumes "search sp (''artist:'' @ artist_name) = Inr results"
  shows "(retrieve_id sp artist_name = Inl (NoArtistsFound artist_name)) = (py_len results = Inr 0)
       \<and> (\<forall>kvs artists. results = JDict kvs \<and> map_of kvs ''artists'' = Some artists \<longrightarrow>
            retrieve_id sp artist_name \<noteq> Inl (NoArtistsFound artist_name) \<and>
            (getitem_key artists ''items'' = Inr (JList []) \<longrightarrow>
               retrieve_id sp artist_name = Inl IndexError))"
proof -
  have chain: "getitem_key v k = Inl e \<Longrightarrow> e \<noteq> NoArtistsFound n" for v k e n
    by (auto dest: getitem_key_error)
  have idx: "getitem_index v i = Inl e \<Longrightarrow> e \<noteq> NoArtistsFound n" for v i e n
    by (auto simp: getitem_index_def seq_index_def split: json.splits if_splits sum.splits)
  have len: "py_len v = Inl e \<Longrightarrow> e \<noteq> NoArtistsFound n" for v e n
    by (auto simp: py_len_def split: json.splits)
  have first: "(retrieve_id sp artist_name = Inl (NoArtistsFound artist_name)) = (py_len results = Inr 0)"
    using assms
    by (auto simp: retrieve_id_def split: sum.splits dest: chain idx len)
  have second: "retrieve_id sp artist_name \<noteq> Inl (NoArtistsFound artist_name) \<and>
            (getitem_key artists ''items'' = Inr (JList []) \<longrightarrow>
               retrieve_id sp artist_name = Inl IndexError)"
    if "results = JDict kvs" "map_of kvs ''artists'' = Some artists" for kvs artists
  proof -
    from that have ne: "kvs \<noteq> []" by auto
    with that have "py_len results \<noteq> Inr 0" by (simp add: py_len_dict_zero)
    with first have a: "retrieve_id sp artist_name \<noteq> Inl (NoArtistsFound artist_name)" by simp
    from ne have n: "py_len (JDict kvs) = Inr (length (remdups (map fst kvs)))"
      "0 < length (remdups (map fst kvs))"
      by (simp_all add: py_len_def)
    have b: "retrieve_id sp artist_name = Inl IndexError"
      if "getitem_key artists ''items'' = Inr (JList [])"
      using assms \<open>results = JDict kvs\<close> \<open>map_of kvs ''artists'' = Some artists\<close> that n
      by (simp add: retrieve_id_def getitem_key_def getitem_index_def seq_index_def)
    from a b show ?thesis by blast
  qed
  from first second show ?thesis by blast
qed

theorem retrieve_id_branch_witness:
  "search small_catalog (''artist:'' @ ''Z'') = Inr no_match
   \<and> retrieve_id small_catalog ''Z'' \<noteq> Inl (NoArtistsFound ''Z'')
   \<and> retrieve_id small_catalog ''Z'' = Inl IndexError"
proof -
  have s: "search small_catalog (''artist:'' @ ''Z'') = Inr no_match"
    by (simp add: small_catalog_def)
  have k: "no_match = JDict [(''artists'', JDict [(''items'', JList [])])]
      \<and> map_of [(''artists'', JDict [(''items'', JList [])])] ''artists'' = Some (JDict [(''items'', JList [])])"
    by (simp add: no_match_def)
  have i: "getitem_key (JDict [(''items'', JList [])]) ''items'' = Inr (JList [])"
    by (simp add: getitem_key_def)
  from retrieve_id_branch [OF s] k i s show ?thesis by blast
qed

text \<open>
  C4: the artist Z has no match in \<open>small_catalog\<close>: the search returns an object
  whose list of items is empty. The lookup and the recommendation end with IndexError,
  not with the "No artists found" error naming Z.
\<close>

theorem run_no_match:
  "search small_catalog ''artist:Z'' = Inr (JDict [(''artists'', JDict [(''items'', JList [])])])
   \<and> retrieve_id small_catalog ''Z'' = Inl IndexError
   \<and> run small_catalog first_rng [''Z''] 1 = Inl IndexError"
proof -
  have s: "search small_catalog ''artist:Z'' = Inr (JDict [(''artists'', JDict [(''items'', JList [])])])"
    by (simp add: small_catalog_def no_match_def)
  have i: "retrieve_id small_catalog ''Z'' = Inl IndexError" by code_simp
  have r: "run small_catalog first_rng [''Z''] 1 = Inl IndexError" by code_simp
  from s i r show ?thesis by simp
qed

end
